theory Spec2Isabelle
  imports Complex_Main
begin

section \<open>Price elasticity estimation and price optimisation (src/utils/elasticity.ts)\<close>

subsection \<open>ECMAScript numbers\<close>

text \<open>
  The source computes on ECMAScript \<open>number\<close>s. They are modelled as the real numbers
  extended with the three special values the code can produce or test for:
  \<open>Infinity\<close>, \<open>-Infinity\<close> and \<open>NaN\<close>. Finite values are exact reals: rounding,
  overflow and underflow of the binary64 format are not modelled, and neither is the
  sign of zero (a zero divisor is taken to be \<open>+0\<close>). The special values follow the
  ECMAScript rules of \<open>+\<close>, \<open>-\<close>, \<open>*\<close>, \<open>/\<close>, \<open>>\<close>, \<open>Math.log\<close>, \<open>Math.abs\<close>,
  \<open>Math.pow\<close> and \<open>isFinite\<close>.
\<close>

datatype jsnum = Num real | PInf | NInf | NaN

fun isFinite :: "jsnum \<Rightarrow> bool" where
  "isFinite (Num x) = True"
| "isFinite PInf = False"
| "isFinite NInf = False"
| "isFinite NaN = False"

fun jneg :: "jsnum \<Rightarrow> jsnum" where
  "jneg (Num x) = Num (- x)"
| "jneg PInf = NInf"
| "jneg NInf = PInf"
| "jneg NaN = NaN"

fun jadd :: "jsnum \<Rightarrow> jsnum \<Rightarrow> jsnum" where
  "jadd (Num a) (Num b) = Num (a + b)"
| "jadd NaN y = NaN"
| "jadd x NaN = NaN"
| "jadd PInf NInf = NaN"
| "jadd NInf PInf = NaN"
| "jadd PInf y = PInf"
| "jadd x PInf = PInf"
| "jadd NInf y = NInf"
| "jadd x NInf = NInf"

definition jsub :: "jsnum \<Rightarrow> jsnum \<Rightarrow> jsnum" where
  "jsub x y = jadd x (jneg y)"

text \<open>An infinity times a finite value: \<open>NaN\<close> at zero, otherwise the product of the signs.\<close>

definition inf_times :: "bool \<Rightarrow> real \<Rightarrow> jsnum" where
  "inf_times pos b =
     (if b = 0 then NaN else if (0 < b) = pos then PInf else NInf)"

fun jmul :: "jsnum \<Rightarrow> jsnum \<Rightarrow> jsnum" where
  "jmul (Num a) (Num b) = Num (a * b)"
| "jmul NaN y = NaN"
| "jmul x NaN = NaN"
| "jmul PInf (Num b) = inf_times True b"
| "jmul NInf (Num b) = inf_times False b"
| "jmul (Num a) PInf = inf_times True a"
| "jmul (Num a) NInf = inf_times False a"
| "jmul PInf PInf = PInf"
| "jmul NInf NInf = PInf"
| "jmul PInf NInf = NInf"
| "jmul NInf PInf = NInf"

fun jdiv :: "jsnum \<Rightarrow> jsnum \<Rightarrow> jsnum" where
  "jdiv (Num a) (Num b) =
     (if b \<noteq> 0 then Num (a / b)
      else if a = 0 then NaN
      else if 0 < a then PInf else NInf)"
| "jdiv NaN y = NaN"
| "jdiv x NaN = NaN"
| "jdiv (Num a) PInf = Num 0"
| "jdiv (Num a) NInf = Num 0"
| "jdiv PInf (Num b) = (if 0 \<le> b then PInf else NInf)"
| "jdiv NInf (Num b) = (if 0 \<le> b then NInf else PInf)"
| "jdiv PInf PInf = NaN"
| "jdiv PInf NInf = NaN"
| "jdiv NInf PInf = NaN"
| "jdiv NInf NInf = NaN"

text \<open>\<open>x > y\<close>: false as soon as one side is \<open>NaN\<close>.\<close>

fun jgt :: "jsnum \<Rightarrow> jsnum \<Rightarrow> bool" where
  "jgt (Num a) (Num b) = (b < a)"
| "jgt NaN y = False"
| "jgt x NaN = False"
| "jgt PInf PInf = False"
| "jgt PInf y = True"
| "jgt x PInf = False"
| "jgt NInf y = False"
| "jgt x NInf = True"

fun jabs :: "jsnum \<Rightarrow> jsnum" where
  "jabs (Num x) = Num \<bar>x\<bar>"
| "jabs PInf = PInf"
| "jabs NInf = PInf"
| "jabs NaN = NaN"

text \<open>\<open>Math.log\<close>: \<open>-Infinity\<close> at zero and \<open>NaN\<close> below it.\<close>

fun jlog :: "jsnum \<Rightarrow> jsnum" where
  "jlog (Num x) = (if 0 < x then Num (ln x) else if x = 0 then NInf else NaN)"
| "jlog PInf = PInf"
| "jlog NInf = NaN"
| "jlog NaN = NaN"

definition is_int :: "real \<Rightarrow> bool" where
  "is_int b = (b = of_int \<lfloor>b\<rfloor>)"

definition is_odd_int :: "real \<Rightarrow> bool" where
  "is_odd_int b = (is_int b \<and> odd \<lfloor>b\<rfloor>)"

text \<open>
  \<open>Math.pow base exponent\<close>, in the case order of ECMAScript's \<open>Number::exponentiate\<close>:
  the exponent \<open>NaN\<close>, the exponent zero, the base \<open>NaN\<close>, an infinite base, a zero
  base, an infinite exponent, a negative base with a fractional exponent, and the
  ordinary power.
\<close>

fun jpow :: "jsnum \<Rightarrow> jsnum \<Rightarrow> jsnum" where
  "jpow x NaN = NaN"
| "jpow NaN (Num b) = (if b = 0 then Num 1 else NaN)"
| "jpow NaN y = NaN"
| "jpow PInf (Num b) = (if b = 0 then Num 1 else if 0 < b then PInf else Num 0)"
| "jpow PInf PInf = PInf"
| "jpow PInf NInf = Num 0"
| "jpow NInf (Num b) =
     (if b = 0 then Num 1
      else if 0 < b then (if is_odd_int b then NInf else PInf)
      else Num 0)"
| "jpow NInf PInf = PInf"
| "jpow NInf NInf = Num 0"
| "jpow (Num a) PInf =
     (if a = 0 then Num 0
      else if 1 < \<bar>a\<bar> then PInf else if \<bar>a\<bar> = 1 then NaN else Num 0)"
| "jpow (Num a) NInf =
     (if a = 0 then PInf
      else if 1 < \<bar>a\<bar> then Num 0 else if \<bar>a\<bar> = 1 then NaN else PInf)"
| "jpow (Num a) (Num b) =
     (if b = 0 then Num 1
      else if a = 0 then (if 0 < b then Num 0 else PInf)
      else if 0 < a then Num (a powr b)
      else if is_int b then Num (a powi \<lfloor>b\<rfloor>)
      else NaN)"

subsection \<open>The data model\<close>

record SalesDataPoint =
  price :: jsnum
  quantity_sold :: jsnum
  product_name :: string
  category :: string
  sale_date :: string

text \<open>The objects built by the \<open>map\<close> of \<open>calculateElasticity\<close>.\<close>

record LogPoint =
  logPrice :: jsnum
  logQuantity :: jsnum
  lp_price :: jsnum
  lp_quantity :: jsnum

text \<open>
  \<open>ElasticityResult\<close>. Its \<open>product_name\<close> and \<open>category\<close> fields are written
  \<open>res_product_name\<close> and \<open>res_category\<close>, the names being taken by \<open>SalesDataPoint\<close>.
\<close>

record ElasticityResult =
  elasticity :: jsnum
  r_squared :: jsnum
  is_elastic :: bool
  res_product_name :: string
  res_category :: string
  current_price :: jsnum
  recommended_price :: jsnum
  expected_revenue_change :: jsnum

record OptimizationResult =
  optimal_price :: jsnum
  expected_change :: jsnum

datatype target = Revenue | Profit

subsection \<open>calculateElasticity\<close>

text \<open>
  \<open>new Date(s).getTime()\<close> is the platform's date parser; it is the parameter
  \<open>getTime\<close>, which gives the time value of a date string in milliseconds. Its values
  are integers: a series with a date that does not parse (time value \<open>NaN\<close>) is outside
  the model, ECMAScript leaving the order produced by an inconsistent comparator to the
  implementation.

  On exact reals the tests \<open>denominator === 0\<close> (line 56) and
  \<open>Math.abs(elasticity) > 1\<close> (line 76) are decided on the exact sums. The code decides
  them on binary64 values: there the mean of equal log-prices is rounded and can differ
  from them in the last place, which leaves a tiny nonzero denominator where the exact
  one is zero, and a slope that is exactly \<open>-1\<close> can come out just beyond it. The
  theorems below are about the exact sums; the examples with an elasticity of exactly
  \<open>1\<close> or \<open>-1\<close> use the prices 1 and 2, on which binary64 gives the same values.

  \<open>Array.prototype.sort\<close> is stable and sorts the array in place, returning the same
  array: after line 28 \<open>dataPoints\<close> and \<open>sortedData\<close> are one array, in ascending
  order of time value. The model therefore returns, beside the result, the caller's
  array as the call leaves it, and reads \<open>dataPoints[0]\<close> in the sorted array.
\<close>

definition toLogPoint :: "SalesDataPoint \<Rightarrow> LogPoint" where
  "toLogPoint point =
     \<lparr>logPrice = jlog (price point),
      logQuantity = jlog (quantity_sold point),
      lp_price = price point,
      lp_quantity = quantity_sold point\<rparr>"

definition finiteLogs :: "LogPoint \<Rightarrow> bool" where
  "finiteLogs point = (isFinite (logPrice point) \<and> isFinite (logQuantity point))"

text \<open>The loop of lines 49 to 54, one iteration on the pair (numerator, denominator).\<close>

definition slope_step ::
  "jsnum \<Rightarrow> jsnum \<Rightarrow> jsnum \<times> jsnum \<Rightarrow> LogPoint \<Rightarrow> jsnum \<times> jsnum" where
  "slope_step meanLogPrice meanLogQuantity acc point =
     (let priceDeviation = jsub (logPrice point) meanLogPrice;
          quantityDeviation = jsub (logQuantity point) meanLogQuantity
      in (jadd (fst acc) (jmul priceDeviation quantityDeviation),
          jadd (snd acc) (jmul priceDeviation priceDeviation)))"

definition calculateElasticity ::
  "(string \<Rightarrow> int) \<Rightarrow> SalesDataPoint list \<Rightarrow> ElasticityResult option \<times> SalesDataPoint list" where
  "calculateElasticity getTime dataPoints =
     (if length dataPoints < 2 then (None, dataPoints)
      else
        let sortedData = sort_key (\<lambda>a. getTime (sale_date a)) dataPoints;
            logPoints = filter finiteLogs (map toLogPoint sortedData)
        in if length logPoints < 2 then (None, sortedData)
        else
          let n = Num (real (length logPoints));
              meanLogPrice = jdiv (foldl (\<lambda>sum p. jadd sum (logPrice p)) (Num 0) logPoints) n;
              meanLogQuantity =
                jdiv (foldl (\<lambda>sum p. jadd sum (logQuantity p)) (Num 0) logPoints) n;
              acc = foldl (slope_step meanLogPrice meanLogQuantity) (Num 0, Num 0) logPoints;
              numerator = fst acc;
              denominator = snd acc
          in if denominator = Num 0 then (None, sortedData)
          else
            let elasticity' = jdiv numerator denominator;
                predicted =
                  map (\<lambda>point. jadd meanLogQuantity
                         (jmul elasticity' (jsub (logPrice point) meanLogPrice))) logPoints;
                totalSumSquares =
                  foldl (\<lambda>sum point.
                      jadd sum (jpow (jsub (logQuantity point) meanLogQuantity) (Num 2)))
                    (Num 0) logPoints;
                residualSumSquares =
                  foldl (\<lambda>sum (point, i).
                      jadd sum (jpow (jsub (logQuantity point) (predicted ! i)) (Num 2)))
                    (Num 0) (zip logPoints [0..<length logPoints]);
                r_squared' =
                  (if jgt totalSumSquares (Num 0)
                   then jsub (Num 1) (jdiv residualSumSquares totalSumSquares)
                   else Num 0);
                is_elastic' = jgt (jabs elasticity') (Num 1);
                current_price' = price (last sortedData);
                current_quantity = quantity_sold (last sortedData);
                (recommended_price', expected_revenue_change') =
                  (if is_elastic' then
                     let recommended_price' = jmul current_price' (Num 0.9);
                         predicted_quantity =
                           jmul current_quantity
                             (jpow (jdiv recommended_price' current_price') elasticity');
                         current_revenue = jmul current_price' current_quantity;
                         predicted_revenue = jmul recommended_price' predicted_quantity
                     in (recommended_price',
                         jmul (jdiv (jsub predicted_revenue current_revenue) current_revenue)
                           (Num 100))
                   else
                     let recommended_price' = jmul current_price' (Num 1.1);
                         predicted_quantity =
                           jmul current_quantity
                             (jpow (jdiv recommended_price' current_price') elasticity');
                         current_revenue = jmul current_price' current_quantity;
                         predicted_revenue = jmul recommended_price' predicted_quantity
                     in (recommended_price',
                         jmul (jdiv (jsub predicted_revenue current_revenue) current_revenue)
                           (Num 100)))
            in (Some \<lparr>elasticity = elasticity',
                      r_squared = r_squared',
                      is_elastic = is_elastic',
                      res_product_name = product_name (hd sortedData),
                      res_category = category (hd sortedData),
                      current_price = current_price',
                      recommended_price = recommended_price',
                      expected_revenue_change = expected_revenue_change'\<rparr>,
                sortedData))"

subsection \<open>optimizePrice\<close>

text \<open>
  The defaults of the last two parameters (\<open>costPerUnit = 0\<close>,
  \<open>optimizationTarget = 'revenue'\<close>) are supplied by the caller of the model.
\<close>

definition optimizePrice ::
  "jsnum \<Rightarrow> jsnum \<Rightarrow> jsnum \<Rightarrow> jsnum \<Rightarrow> target \<Rightarrow> OptimizationResult" where
  "optimizePrice elasticity' currentPrice currentQuantity costPerUnit optimizationTarget =
     (if optimizationTarget = Revenue then
        (if jgt (jabs elasticity') (Num 1) then
           let optimal_price' = jmul currentPrice (Num 0.85);
               predicted_quantity =
                 jmul currentQuantity (jpow (jdiv optimal_price' currentPrice) elasticity');
               current_revenue = jmul currentPrice currentQuantity;
               predicted_revenue = jmul optimal_price' predicted_quantity;
               expected_change' =
                 jmul (jdiv (jsub predicted_revenue current_revenue) current_revenue) (Num 100)
           in \<lparr>optimal_price = optimal_price', expected_change = expected_change'\<rparr>
         else
           let optimal_price' = jmul currentPrice (Num 1.15);
               predicted_quantity =
                 jmul currentQuantity (jpow (jdiv optimal_price' currentPrice) elasticity');
               current_revenue = jmul currentPrice currentQuantity;
               predicted_revenue = jmul optimal_price' predicted_quantity;
               expected_change' =
                 jmul (jdiv (jsub predicted_revenue current_revenue) current_revenue) (Num 100)
           in \<lparr>optimal_price = optimal_price', expected_change = expected_change'\<rparr>)
      else
        let optimal_price' =
              jmul currentPrice (if jgt (jabs elasticity') (Num 1) then Num 0.9 else Num 1.2);
            predicted_quantity =
              jmul currentQuantity (jpow (jdiv optimal_price' currentPrice) elasticity');
            current_profit = jmul (jsub currentPrice costPerUnit) currentQuantity;
            predicted_profit = jmul (jsub optimal_price' costPerUnit) predicted_quantity;
            expected_change' =
              (if jgt current_profit (Num 0)
               then jmul (jdiv (jsub predicted_profit current_profit) current_profit) (Num 100)
               else Num 0)
        in \<lparr>optimal_price = optimal_price', expected_change = expected_change'\<rparr>)"

subsection \<open>The regression as the specification words it\<close>

text \<open>
  The definitions of this subsection follow the specification, on real numbers: the
  observations that survive the filter (price and quantity finite and positive), their
  logarithms, the arithmetic means \<open>mp\<close> and \<open>mq\<close>, the least-squares slope and the
  goodness of fit. The revenue change and the profits of the specification are written
  on ECMAScript numbers, and \<open>sorted_by_date\<close> is the series in ascending order of date,
  same-date observations in input order. They are compared below with what the code
  computes.
\<close>

fun num_of :: "jsnum \<Rightarrow> real" where
  "num_of (Num x) = x"
| "num_of PInf = 0"
| "num_of NInf = 0"
| "num_of NaN = 0"

definition survives :: "SalesDataPoint \<Rightarrow> bool" where
  "survives d =
     (isFinite (price d) \<and> jgt (price d) (Num 0) \<and>
      isFinite (quantity_sold d) \<and> jgt (quantity_sold d) (Num 0))"

definition lnP :: "SalesDataPoint \<Rightarrow> real" where
  "lnP d = ln (num_of (price d))"

definition lnQ :: "SalesDataPoint \<Rightarrow> real" where
  "lnQ d = ln (num_of (quantity_sold d))"

definition mean :: "real list \<Rightarrow> real" where
  "mean xs = sum_list xs / real (length xs)"

definition ols_numerator :: "SalesDataPoint list \<Rightarrow> real" where
  "ols_numerator ds =
     (let fs = filter survives ds; mp = mean (map lnP fs); mq = mean (map lnQ fs)
      in (\<Sum>d\<leftarrow>fs. (lnP d - mp) * (lnQ d - mq)))"

definition ols_denominator :: "SalesDataPoint list \<Rightarrow> real" where
  "ols_denominator ds =
     (let fs = filter survives ds; mp = mean (map lnP fs)
      in (\<Sum>d\<leftarrow>fs. (lnP d - mp)\<^sup>2))"

definition ols_slope :: "SalesDataPoint list \<Rightarrow> real" where
  "ols_slope ds = ols_numerator ds / ols_denominator ds"

definition ols_r_squared :: "SalesDataPoint list \<Rightarrow> real" where
  "ols_r_squared ds =
     (let fs = filter survives ds; mp = mean (map lnP fs); mq = mean (map lnQ fs);
          e = ols_slope ds;
          tss = (\<Sum>d\<leftarrow>fs. (lnQ d - mq)\<^sup>2);
          rss = (\<Sum>d\<leftarrow>fs. (lnQ d - (mq + e * (lnP d - mp)))\<^sup>2)
      in if 0 < tss then 1 - rss / tss else 0)"

definition spec_revenue_change :: "jsnum \<Rightarrow> jsnum \<Rightarrow> jsnum \<Rightarrow> jsnum \<Rightarrow> jsnum" where
  "spec_revenue_change current_price' current_quantity recommended_price' e =
     (let predicted_quantity =
            jmul current_quantity (jpow (jdiv recommended_price' current_price') e)
      in jmul (jdiv (jsub (jmul recommended_price' predicted_quantity)
                          (jmul current_price' current_quantity))
                    (jmul current_price' current_quantity))
              (Num 100))"

definition sorted_by_date :: "(string \<Rightarrow> int) \<Rightarrow> SalesDataPoint list \<Rightarrow> SalesDataPoint list" where
  "sorted_by_date getTime ds = sort_key (\<lambda>a. getTime (sale_date a)) ds"

definition log_price_variance :: "SalesDataPoint list \<Rightarrow> real" where
  "log_price_variance ds = ols_denominator ds / real (length (filter survives ds))"

text \<open>The table of offsets of the price optimiser: target, then elastic or not.\<close>

fun price_offset :: "target \<Rightarrow> bool \<Rightarrow> real" where
  "price_offset Revenue True = 0.85"
| "price_offset Revenue False = 1.15"
| "price_offset Profit True = 0.90"
| "price_offset Profit False = 1.20"

text \<open>The baseline and the predicted profit of the profit objective.\<close>

definition current_profit :: "jsnum \<Rightarrow> jsnum \<Rightarrow> jsnum \<Rightarrow> jsnum" where
  "current_profit currentPrice costPerUnit currentQuantity =
     jmul (jsub currentPrice costPerUnit) currentQuantity"

definition predicted_profit :: "jsnum \<Rightarrow> jsnum \<Rightarrow> jsnum \<Rightarrow> jsnum \<Rightarrow> jsnum" where
  "predicted_profit e currentPrice currentQuantity costPerUnit =
     (let candidate = jmul currentPrice (Num (price_offset Profit (jgt (jabs e) (Num 1))));
          predicted_quantity = jmul currentQuantity (jpow (jdiv candidate currentPrice) e)
      in jmul (jsub candidate costPerUnit) predicted_quantity)"

subsection \<open>Example data\<close>

text \<open>The time values of the date strings of the examples (UTC midnight, in milliseconds).\<close>

definition example_getTime :: "string \<Rightarrow> int" where
  "example_getTime s =
     (if s = ''2024-01-01'' then 1704067200000
      else if s = ''2024-01-02'' then 1704153600000
      else if s = ''2024-01-03'' then 1704240000000
      else 0)"

definition obs :: "real \<Rightarrow> real \<Rightarrow> string \<Rightarrow> string \<Rightarrow> SalesDataPoint" where
  "obs p q c d =
     \<lparr>price = Num p, quantity_sold = Num q, product_name = ''Widget'', category = c,
      sale_date = d\<rparr>"

section \<open>What calculateElasticity computes\<close>

subsection \<open>The loops on finite logarithms\<close>

lemma jpow_two: "jpow (Num x) (Num 2) = Num (x\<^sup>2)"
  by (simp add: is_int_def power_int_def)

lemma jsub_Num: "jsub (Num a) (Num b) = Num (a - b)"
  by (simp add: jsub_def)

lemma finiteLogs_toLogPoint: "finiteLogs (toLogPoint d) = survives d"
  by (cases "price d"; cases "quantity_sold d") (auto simp: finiteLogs_def toLogPoint_def survives_def)

lemma logPrice_toLogPoint: "survives d \<Longrightarrow> logPrice (toLogPoint d) = Num (lnP d)"
  by (cases "price d"; cases "quantity_sold d") (auto simp: toLogPoint_def survives_def lnP_def)

lemma logQuantity_toLogPoint: "survives d \<Longrightarrow> logQuantity (toLogPoint d) = Num (lnQ d)"
  by (cases "price d"; cases "quantity_sold d") (auto simp: toLogPoint_def survives_def lnQ_def)

lemma filter_finiteLogs: "filter finiteLogs (map toLogPoint ds) = map toLogPoint (filter survives ds)"
  by (induction ds) (simp_all add: finiteLogs_toLogPoint)

lemma sum_logPrice:
  "\<forall>d\<in>set fs. survives d \<Longrightarrow>
   foldl (\<lambda>sum p. jadd sum (logPrice p)) (Num a) (map toLogPoint fs) = Num (a + sum_list (map lnP fs))"
  by (induction fs arbitrary: a) (simp_all add: logPrice_toLogPoint)

lemma sum_logQuantity:
  "\<forall>d\<in>set fs. survives d \<Longrightarrow>
   foldl (\<lambda>sum p. jadd sum (logQuantity p)) (Num a) (map toLogPoint fs) = Num (a + sum_list (map lnQ fs))"
  by (induction fs arbitrary: a) (simp_all add: logQuantity_toLogPoint)

lemma slope_loop:
  "\<forall>d\<in>set fs. survives d \<Longrightarrow>
   foldl (slope_step (Num mp) (Num mq)) (Num a, Num b) (map toLogPoint fs) =
     (Num (a + (\<Sum>d\<leftarrow>fs. (lnP d - mp) * (lnQ d - mq))), Num (b + (\<Sum>d\<leftarrow>fs. (lnP d - mp)\<^sup>2)))"
  by (induction fs arbitrary: a b)
     (simp_all add: slope_step_def jsub_def logPrice_toLogPoint logQuantity_toLogPoint power2_eq_square)

lemma total_loop:
  "\<forall>d\<in>set fs. survives d \<Longrightarrow>
   foldl (\<lambda>sum point. jadd sum (jpow (jsub (logQuantity point) (Num mq)) (Num 2))) (Num a)
     (map toLogPoint fs) = Num (a + (\<Sum>d\<leftarrow>fs. (lnQ d - mq)\<^sup>2))"
  by (induction fs arbitrary: a) (simp_all add: jsub_Num logQuantity_toLogPoint jpow_two del: jpow.simps)

lemma indexed_foldl:
  "foldl (\<lambda>sum (point, i). h sum point (map f pts ! i)) a (zip pts [0..<length pts]) =
   foldl (\<lambda>sum point. h sum point (f point)) a pts"
proof -
  have "foldl (\<lambda>sum (point, i). h sum point (map f pts ! i)) a (zip pts [0..<length pts]) =
        foldl (\<lambda>sum (point, i). h sum point (f point)) a (zip pts [0..<length pts])"
    by (rule foldl_cong) (auto simp: in_set_zip)
  also have "\<dots> = foldl (\<lambda>sum point. h sum point (f point)) a (map fst (zip pts [0..<length pts]))"
    unfolding foldl_map by (simp add: case_prod_unfold)
  finally show ?thesis by simp
qed

lemma residual_loop:
  "\<forall>d\<in>set fs. survives d \<Longrightarrow>
   foldl (\<lambda>sum (point, i). jadd sum (jpow (jsub (logQuantity point)
        (map (\<lambda>point. jadd (Num mq) (jmul (Num e) (jsub (logPrice point) (Num mp)))) (map toLogPoint fs) ! i)) (Num 2)))
     (Num a) (zip (map toLogPoint fs) [0..<length (map toLogPoint fs)]) =
   Num (a + (\<Sum>d\<leftarrow>fs. (lnQ d - (mq + e * (lnP d - mp)))\<^sup>2))"
proof -
  have "\<forall>d\<in>set fs. survives d \<Longrightarrow>
     foldl (\<lambda>sum point. jadd sum (jpow (jsub (logQuantity point)
        (jadd (Num mq) (jmul (Num e) (jsub (logPrice point) (Num mp))))) (Num 2))) (Num a) (map toLogPoint fs)
     = Num (a + (\<Sum>d\<leftarrow>fs. (lnQ d - (mq + e * (lnP d - mp)))\<^sup>2))" for a
    by (induction fs arbitrary: a)
       (simp_all add: jsub_Num logQuantity_toLogPoint logPrice_toLogPoint jpow_two del: jpow.simps)
  moreover assume "\<forall>d\<in>set fs. survives d"
  ultimately show ?thesis
    using indexed_foldl [where h = "\<lambda>sum point y. jadd sum (jpow (jsub (logQuantity point) y) (Num 2))"
        and f = "\<lambda>point. jadd (Num mq) (jmul (Num e) (jsub (logPrice point) (Num mp)))"
        and pts = "map toLogPoint fs" and a = "Num a"]
    by simp
qed

subsection \<open>Sorting does not change a sum\<close>

lemma sum_list_insort_key: "sum_list (map h (insort_key f x xs)) = (h x :: real) + sum_list (map h xs)"
  by (induction xs) simp_all

lemma sum_list_sort_key: "sum_list (map h (sort_key f xs)) = (sum_list (map h xs) :: real)"
  by (induction xs) (simp_all add: sum_list_insort_key)


subsection \<open>The result in closed form\<close>

lemma calculateElasticity_eq:
  "calculateElasticity getTime ds =
     (if length ds < 2 then (None, ds)
      else if length (filter survives ds) < 2 \<or> ols_denominator ds = 0
      then (None, sorted_by_date getTime ds)
      else (Some \<lparr>elasticity = Num (ols_slope ds),
                  r_squared = Num (ols_r_squared ds),
                  is_elastic = (1 < \<bar>ols_slope ds\<bar>),
                  res_product_name = product_name (hd (sorted_by_date getTime ds)),
                  res_category = category (hd (sorted_by_date getTime ds)),
                  current_price = price (last (sorted_by_date getTime ds)),
                  recommended_price =
                    jmul (price (last (sorted_by_date getTime ds)))
                      (Num (if 1 < \<bar>ols_slope ds\<bar> then 0.9 else 1.1)),
                  expected_revenue_change =
                    spec_revenue_change (price (last (sorted_by_date getTime ds)))
                      (quantity_sold (last (sorted_by_date getTime ds)))
                      (jmul (price (last (sorted_by_date getTime ds)))
                        (Num (if 1 < \<bar>ols_slope ds\<bar> then 0.9 else 1.1)))
                      (Num (ols_slope ds))\<rparr>,
            sorted_by_date getTime ds))"
proof -
  define sd where "sd = sort_key (\<lambda>a. getTime (sale_date a)) ds"
  define fs where "fs = filter survives sd"
  have pts: "filter finiteLogs (map toLogPoint sd) = map toLogPoint fs"
    by (simp add: fs_def filter_finiteLogs)
  have surv: "\<forall>d\<in>set fs. survives d"
    by (simp add: fs_def)
  have fs_sort: "fs = sort_key (\<lambda>a. getTime (sale_date a)) (filter survives ds)"
    by (simp add: fs_def sd_def filter_sort)
  have len: "length fs = length (filter survives ds)"
    by (simp add: fs_sort)
  have sums: "sum_list (map h fs) = sum_list (map h (filter survives ds))" for h :: "SalesDataPoint \<Rightarrow> real"
    by (simp add: fs_sort sum_list_sort_key)
  have mp: "mean (map lnP fs) = mean (map lnP (filter survives ds))"
    and mq: "mean (map lnQ fs) = mean (map lnQ (filter survives ds))"
    by (simp_all add: mean_def sums len)
  define mp where "mp = mean (map lnP fs)"
  define mq where "mq = mean (map lnQ fs)"
  define num where "num = (\<Sum>d\<leftarrow>fs. (lnP d - mp) * (lnQ d - mq))"
  define den where "den = (\<Sum>d\<leftarrow>fs. (lnP d - mp)\<^sup>2)"
  define tss where "tss = (\<Sum>d\<leftarrow>fs. (lnQ d - mq)\<^sup>2)"
  define rss where "rss = (\<Sum>d\<leftarrow>fs. (lnQ d - (mq + num / den * (lnP d - mp)))\<^sup>2)"
  have spec_den: "ols_denominator ds = den"
    by (simp add: ols_denominator_def Let_def den_def mp_def mp sums)
  have spec_num: "ols_numerator ds = num"
    by (simp add: ols_numerator_def Let_def num_def mp_def mq_def mp mq sums)
  have spec_slope: "ols_slope ds = num / den"
    by (simp add: ols_slope_def spec_den spec_num)
  have spec_r2: "ols_r_squared ds = (if 0 < tss then 1 - rss / tss else 0)"
    by (simp add: ols_r_squared_def Let_def spec_slope tss_def rss_def mp_def mq_def mp mq sums)
  show ?thesis
  proof (cases "length ds < 2")
    case True
    then show ?thesis by (simp add: calculateElasticity_def)
  next
    case long: False
    have lenpts: "length (map toLogPoint fs) = length (filter survives ds)"
      by (simp add: len)
    show ?thesis
    proof (cases "length fs < 2")
      case True
      then show ?thesis
        using long unfolding calculateElasticity_def Let_def sorted_by_date_def sd_def [symmetric] pts lenpts
        by (simp add: len)
    next
      case False
      then have two: "2 \<le> length fs" by simp
      have mlp: "jdiv (foldl (\<lambda>sum p. jadd sum (logPrice p)) (Num 0) (map toLogPoint fs))
          (Num (real (length (map toLogPoint fs)))) = Num mp"
        using sum_logPrice [OF surv, of 0] two by (auto simp: mean_def mp_def)
      have mlq: "jdiv (foldl (\<lambda>sum p. jadd sum (logQuantity p)) (Num 0) (map toLogPoint fs))
          (Num (real (length (map toLogPoint fs)))) = Num mq"
        using sum_logQuantity [OF surv, of 0] two by (auto simp: mean_def mq_def)
      have acc: "foldl (slope_step (Num mp) (Num mq)) (Num 0, Num 0) (map toLogPoint fs) = (Num num, Num den)"
        using slope_loop [OF surv, of mp mq 0 0] by (simp add: num_def den_def)
      have total: "foldl (\<lambda>sum point. jadd sum (jpow (jsub (logQuantity point) (Num mq)) (Num 2))) (Num 0)
          (map toLogPoint fs) = Num tss"
        using total_loop [OF surv, of mq 0] by (simp add: tss_def)
      have resid: "foldl (\<lambda>sum (point, i). jadd sum (jpow (jsub (logQuantity point)
            (map (\<lambda>point. jadd (Num mq) (jmul (Num (num / den)) (jsub (logPrice point) (Num mp))))
               (map toLogPoint fs) ! i)) (Num 2)))
          (Num 0) (zip (map toLogPoint fs) [0..<length (map toLogPoint fs)]) = Num rss"
        using residual_loop [OF surv, of mq "num / den" mp 0] by (simp add: rss_def)
      show ?thesis
      proof (cases "den = 0")
        case True
        then show ?thesis
          using long two
          unfolding calculateElasticity_def Let_def sorted_by_date_def sd_def [symmetric] pts mlp mlq acc
            snd_conv fst_conv
          by (simp add: spec_den)
      next
        case False
        then have e: "jdiv (Num num) (Num den) = Num (num / den)"
          by simp
        have r2: "(if jgt (Num tss) (Num 0) then jsub (Num 1) (jdiv (Num rss) (Num tss)) else Num 0)
          = Num (ols_r_squared ds)"
          by (simp add: spec_r2 jsub_Num)
        show ?thesis
          using long two False
          unfolding calculateElasticity_def Let_def sorted_by_date_def sd_def [symmetric] pts mlp mlq acc
            snd_conv fst_conv e total resid r2
          apply (simp add: spec_den spec_slope len spec_revenue_change_def del: jpow.simps jmul.simps jdiv.simps)
          done
      qed
    qed
  qed
qed

subsection \<open>Series of two observations\<close>

lemma length_filter_le_two: "2 \<le> length (filter P xs) \<Longrightarrow> \<not> length xs < 2"
  using length_filter_le [of P xs] by linarith

lemma variance_zero_iff:
  "2 \<le> length (filter survives ds) \<Longrightarrow> log_price_variance ds = 0 \<longleftrightarrow> ols_denominator ds = 0"
  by (auto simp: log_price_variance_def)

lemma two_point_denominator:
  "survives a \<Longrightarrow> survives b \<Longrightarrow> ols_denominator [a, b] = (lnP a - lnP b)\<^sup>2 / 2"
  by (simp add: ols_denominator_def mean_def power2_eq_square field_simps)

lemma two_point_numerator:
  "survives a \<Longrightarrow> survives b \<Longrightarrow>
   ols_numerator [a, b] = (lnP a - lnP b) * (lnQ a - lnQ b) / 2"
  by (simp add: ols_numerator_def mean_def field_simps)

lemma two_point_slope:
  "survives a \<Longrightarrow> survives b \<Longrightarrow> lnP a \<noteq> lnP b \<Longrightarrow>
   ols_slope [a, b] = (lnQ a - lnQ b) / (lnP a - lnP b)"
  by (simp add: ols_slope_def two_point_denominator two_point_numerator power2_eq_square)

lemma survives_obs: "survives (obs p q c d) \<longleftrightarrow> 0 < p \<and> 0 < q"
  by (simp add: survives_def obs_def)

lemma lnP_obs: "lnP (obs p q c d) = ln p" and lnQ_obs: "lnQ (obs p q c d) = ln q"
  by (simp_all add: lnP_def lnQ_def obs_def)

lemma ln_20: "ln (20::real) = ln 10 + ln 2"
  using ln_mult [of 10 2] by simp

lemma ln_4: "ln (4::real) = 2 * ln 2"
  using ln_realpow [of 2 2] by simp

subsection \<open>Results, the latest observation and the revenue change\<close>

lemma calculateElasticity_Some:
  assumes "2 \<le> length (filter survives ds)" and "ols_denominator ds \<noteq> 0"
  shows "fst (calculateElasticity getTime ds) =
     Some \<lparr>elasticity = Num (ols_slope ds),
           r_squared = Num (ols_r_squared ds),
           is_elastic = (1 < \<bar>ols_slope ds\<bar>),
           res_product_name = product_name (hd (sorted_by_date getTime ds)),
           res_category = category (hd (sorted_by_date getTime ds)),
           current_price = price (last (sorted_by_date getTime ds)),
           recommended_price =
             jmul (price (last (sorted_by_date getTime ds)))
               (Num (if 1 < \<bar>ols_slope ds\<bar> then 0.9 else 1.1)),
           expected_revenue_change =
             spec_revenue_change (price (last (sorted_by_date getTime ds)))
               (quantity_sold (last (sorted_by_date getTime ds)))
               (jmul (price (last (sorted_by_date getTime ds)))
                 (Num (if 1 < \<bar>ols_slope ds\<bar> then 0.9 else 1.1)))
               (Num (ols_slope ds))\<rparr>"
  using assms length_filter_le_two [OF assms(1)] by (simp add: calculateElasticity_eq)

lemma calculateElasticity_SomeD:
  assumes "fst (calculateElasticity getTime ds) = Some r"
  shows "2 \<le> length ds" and "2 \<le> length (filter survives ds)" and "ols_denominator ds \<noteq> 0"
  using assms by (auto simp: calculateElasticity_eq split: if_splits)

lemma sorted_le_last: "sorted xs \<Longrightarrow> x \<in> set xs \<Longrightarrow> (x::int) \<le> last xs"
  by (induction xs) auto

lemma last_sorted_by_date:
  assumes "ds \<noteq> []"
  shows "last (sorted_by_date getTime ds) \<in> set ds"
    and "\<forall>d\<in>set ds. getTime (sale_date d) \<le> getTime (sale_date (last (sorted_by_date getTime ds)))"
proof -
  let ?f = "\<lambda>a. getTime (sale_date a)"
  let ?sd = "sort_key ?f ds"
  have ne: "?sd \<noteq> []"
    using assms by (metis length_sort length_0_conv)
  then have "last ?sd \<in> set ?sd"
    by (rule last_in_set)
  then show "last (sorted_by_date getTime ds) \<in> set ds"
    by (simp add: sorted_by_date_def)
  have "sorted (map ?f ?sd)"
    by (rule sorted_sort_key)
  moreover have "last (map ?f ?sd) = ?f (last ?sd)"
    using ne by (rule last_map)
  ultimately have "\<forall>x\<in>set (map ?f ?sd). x \<le> ?f (last ?sd)"
    using sorted_le_last [of "map ?f ?sd"] by metis
  then show "\<forall>d\<in>set ds. getTime (sale_date d) \<le> getTime (sale_date (last (sorted_by_date getTime ds)))"
    by (simp add: sorted_by_date_def)
qed

lemma spec_revenue_change_real:
  assumes "0 < p" and "q \<noteq> 0" and "0 < k"
  shows "spec_revenue_change (Num p) (Num q) (jmul (Num p) (Num k)) (Num e) =
     Num (((p * k) * (q * (p * k / p) powr e) - p * q) / (p * q) * 100)"
  using assms by (simp add: spec_revenue_change_def jsub_Num)

lemma obs_sel [simp]:
  "price (obs p q c d) = Num p" "quantity_sold (obs p q c d) = Num q"
  "product_name (obs p q c d) = ''Widget''" "category (obs p q c d) = c"
  "sale_date (obs p q c d) = d"
  by (simp_all add: obs_def)

lemma ln_100: "ln (100::real) = ln 50 + ln 2"
  using ln_mult [of 50 2] by simp

lemma ln_200: "ln (200::real) = ln 50 + 2 * ln 2"
  using ln_mult [of 50 4] by (simp add: ln_4)

lemma sorted_example_pair [simp]:
  "sorted_by_date example_getTime [obs p q c ''2024-01-01'', obs p' q' c' ''2024-01-02''] =
     [obs p q c ''2024-01-01'', obs p' q' c' ''2024-01-02'']"
  by (simp add: sorted_by_date_def example_getTime_def)

lemma jmul_eq_zeroD:
  assumes "jmul x y = Num 0"
  obtains a b where "x = Num a" and "y = Num b" and "a * b = 0"
  using assms by (cases x; cases y) (auto simp: inf_times_def split: if_splits)

lemma zero_baseline_NaN:
  assumes "jmul cp cq = Num 0"
  shows "spec_revenue_change cp cq (jmul cp (Num k)) (Num e) = NaN"
proof -
  from assms obtain a b where ab: "cp = Num a" "cq = Num b" "a * b = 0"
    by (rule jmul_eq_zeroD)
  show ?thesis
  proof (cases "a = 0")
    case True
    then show ?thesis
      by (simp add: ab spec_revenue_change_def jsub_def)
  next
    case False
    with ab have b: "b = 0" by simp
    have "jmul (jdiv (jsub (jmul x (jmul (Num 0) w)) (Num 0)) (Num 0)) (Num 100) = NaN"
      if "x = Num c" for x w c
      using that by (cases w) (simp_all add: jsub_def inf_times_def)
    then show ?thesis
      by (simp add: ab b spec_revenue_change_def del: jpow.simps jdiv.simps)
  qed
qed

lemma ols_denominator_filter: "ols_denominator ds = ols_denominator (filter survives ds)"
  by (simp add: ols_denominator_def)

lemma sorted_example_triple [simp]:
  "sorted_by_date example_getTime
     [obs p q c ''2024-01-01'', obs p' q' c' ''2024-01-02'', obs p'' q'' c'' ''2024-01-03''] =
     [obs p q c ''2024-01-01'', obs p' q' c' ''2024-01-02'', obs p'' q'' c'' ''2024-01-03'']"
  by (simp add: sorted_by_date_def example_getTime_def)

lemma residual_expand:
  "(\<Sum>d\<leftarrow>fs. (g d - (mq + e * (f d - mp)))\<^sup>2) =
     (\<Sum>d\<leftarrow>fs. (g d - mq)\<^sup>2) - 2 * e * (\<Sum>d\<leftarrow>fs. (f d - mp) * (g d - mq))
       + e\<^sup>2 * (\<Sum>d\<leftarrow>fs. (f d - mp)\<^sup>2)"
  for e :: real
  by (induction fs) (simp_all add: algebra_simps power2_eq_square)

lemma sum_list_squares_nonneg: "0 \<le> (\<Sum>d\<leftarrow>fs. (h d :: real)\<^sup>2)"
  by (induction fs) simp_all

lemma ols_r_squared_bounds: "0 \<le> ols_r_squared ds \<and> ols_r_squared ds \<le> 1"
proof -
  define fs where "fs = filter survives ds"
  define mp where "mp = mean (map lnP fs)"
  define mq where "mq = mean (map lnQ fs)"
  define num where "num = (\<Sum>d\<leftarrow>fs. (lnP d - mp) * (lnQ d - mq))"
  define den where "den = (\<Sum>d\<leftarrow>fs. (lnP d - mp)\<^sup>2)"
  define tss where "tss = (\<Sum>d\<leftarrow>fs. (lnQ d - mq)\<^sup>2)"
  define rss where "rss = (\<Sum>d\<leftarrow>fs. (lnQ d - (mq + num / den * (lnP d - mp)))\<^sup>2)"
  have r2: "ols_r_squared ds = (if 0 < tss then 1 - rss / tss else 0)"
    by (simp add: ols_r_squared_def ols_slope_def ols_numerator_def ols_denominator_def Let_def
        fs_def mp_def mq_def num_def den_def tss_def rss_def)
  have den0: "0 \<le> den"
    unfolding den_def by (rule sum_list_squares_nonneg)
  have rss0: "0 \<le> rss"
    unfolding rss_def by (rule sum_list_squares_nonneg)
  have "rss = tss - 2 * (num / den) * num + (num / den)\<^sup>2 * den"
    unfolding rss_def tss_def num_def den_def by (rule residual_expand)
  also have "\<dots> = tss - num\<^sup>2 / den"
    by (cases "den = 0") (simp_all add: power2_eq_square field_simps)
  finally have "rss = tss - num\<^sup>2 / den" .
  moreover have "0 \<le> num\<^sup>2 / den"
    using den0 by simp
  ultimately have le: "rss \<le> tss"
    by simp
  show ?thesis
  proof (cases "0 < tss")
    case True
    then have "0 \<le> rss / tss" and "rss / tss \<le> 1"
      using rss0 le by simp_all
    then show ?thesis
      using True by (simp add: r2)
  next
    case False
    then show ?thesis by (simp add: r2)
  qed
qed

lemma ols_denominator_zero_iff:
  "ols_denominator ds = 0 \<longleftrightarrow>
     (\<forall>d\<in>set (filter survives ds). lnP d = mean (map lnP (filter survives ds)))"
proof -
  have "sum_list (map (\<lambda>d. (lnP d - m)\<^sup>2) fs) = 0 \<longleftrightarrow> (\<forall>d\<in>set fs. lnP d = m)"
    for m and fs :: "SalesDataPoint list"
    by (subst sum_list_nonneg_eq_0_iff) auto
  then show ?thesis
    by (simp add: ols_denominator_def Let_def)
qed

lemma ols_denominator_nonzero:
  assumes "a \<in> set ds" and "b \<in> set ds" and "survives a" and "survives b"
    and "lnP a \<noteq> lnP b"
  shows "ols_denominator ds \<noteq> 0"
proof
  assume "ols_denominator ds = 0"
  then have "\<forall>d\<in>set (filter survives ds). lnP d = mean (map lnP (filter survives ds))"
    by (simp only: ols_denominator_zero_iff)
  moreover have "a \<in> set (filter survives ds)" and "b \<in> set (filter survives ds)"
    using assms by simp_all
  ultimately have "lnP a = lnP b"
    by metis
  with assms(5) show False ..
qed

subsection \<open>The caller's array after the call\<close>

lemma sorted_example_pair_rev [simp]:
  "sorted_by_date example_getTime [obs p q c ''2024-01-02'', obs p' q' c' ''2024-01-01''] =
     [obs p' q' c' ''2024-01-01'', obs p q c ''2024-01-02'']"
  by (simp add: sorted_by_date_def example_getTime_def)

lemma obs_eq_iff [simp]:
  "obs p q c d = obs p' q' c' d' \<longleftrightarrow> p = p' \<and> q = q' \<and> c = c' \<and> d = d'"
  by (auto simp: obs_def)

lemma snd_calculateElasticity:
  "snd (calculateElasticity getTime ds) = (if length ds < 2 then ds else sorted_by_date getTime ds)"
  by (simp add: calculateElasticity_eq)

section \<open>What optimizePrice computes\<close>

lemma sqrt_115_bounds: "1.0723 < sqrt (1.15::real)" "sqrt (1.15::real) < 1.0724"
proof -
  show "1.0723 < sqrt (1.15::real)"
    by (rule real_less_rsqrt) (simp add: power2_eq_square)
  show "sqrt (1.15::real) < 1.0724"
    by (rule real_less_lsqrt) (simp_all add: power2_eq_square)
qed

lemma powr_half_115:
  "7.23 < (1.15 powr 0.5 - 1) * (100::real)" "(1.15 powr 0.5 - 1) * (100::real) < 7.24"
proof -
  have "(1.15::real) powr 0.5 = sqrt 1.15"
    using powr_half_sqrt [of "1.15::real"] by simp
  then show "7.23 < (1.15 powr 0.5 - 1) * (100::real)" "(1.15 powr 0.5 - 1) * (100::real) < 7.24"
    using sqrt_115_bounds by simp_all
qed

lemma powr_minus_half:
  fixes x :: real
  assumes "0 < x"
  shows "x * x powr (- (1 / 2)) = x powr (1 / 2)"
proof -
  have "x powr (1 / 2) = x powr (1 + - (1 / 2))"
    by simp
  also have "\<dots> = x powr 1 * x powr (- (1 / 2))"
    by (rule powr_add)
  also have "x powr 1 = x"
    using assms by simp
  finally show ?thesis ..
qed

lemma example_revenue_change:
  "((23::real) * (100 * (23 / 20) powr (- (1 / 2))) - 2000) / 2000 * 100 =
     ((23 / 20) powr (1 / 2) - 1) * 100"
proof -
  define w where "w = (23 / 20 :: real) powr (- (1 / 2))"
  have "(23 / 20) * w = (23 / 20 :: real) powr (1 / 2)"
    unfolding w_def by (rule powr_minus_half) simp
  then have "((23 / 20) powr (1 / 2) - 1) * 100 = ((23 / 20) * w - 1) * (100::real)"
    by (simp only:)
  also have "\<dots> = (23 * (100 * w) - 2000) / 2000 * 100"
    by (simp add: field_simps)
  finally show ?thesis
    by (simp only: w_def)
qed

section \<open>The claims\<close>

text \<open>
  C1. For every series with at least two observations that survive the finite-log filter
  and with nonzero variance among the filtered log-prices, \<open>calculateElasticity\<close> returns a
  result, and its \<open>elasticity\<close> is the least-squares slope
  \<open>\<Sum>(lnP\<^sub>i - mp)(lnQ\<^sub>i - mq) / \<Sum>(lnP\<^sub>i - mp)\<^sup>2\<close>, with \<open>mp\<close> and \<open>mq\<close> the arithmetic
  means of the logarithms over the filtered observations.
\<close>

theorem calculateElasticity_slope:
  assumes "2 \<le> length (filter survives ds)" and "log_price_variance ds \<noteq> 0"
  shows "\<exists>r. fst (calculateElasticity getTime ds) = Some r \<and> elasticity r = Num (ols_slope ds)"
  using assms length_filter_le_two [OF assms(1)]
  by (simp add: calculateElasticity_eq variance_zero_iff)

theorem calculateElasticity_slope_witness:
  "2 \<le> length (filter survives
       [obs 10 100 ''Tools'' ''2024-01-01'', obs 20 25 ''Tools'' ''2024-01-02'']) \<and>
   log_price_variance [obs 10 100 ''Tools'' ''2024-01-01'', obs 20 25 ''Tools'' ''2024-01-02''] \<noteq> 0 \<and>
   ols_slope [obs 10 100 ''Tools'' ''2024-01-01'', obs 20 25 ''Tools'' ''2024-01-02''] = - 2 \<and>
   (\<exists>r. fst (calculateElasticity example_getTime
          [obs 10 100 ''Tools'' ''2024-01-01'', obs 20 25 ''Tools'' ''2024-01-02'']) = Some r \<and>
        elasticity r = Num (- 2))"
proof -
  let ?ds = "[obs 10 100 ''Tools'' ''2024-01-01'', obs 20 25 ''Tools'' ''2024-01-02'']"
  have two: "2 \<le> length (filter survives ?ds)"
    by (simp add: survives_obs)
  have "ln (100::real) = ln 25 + ln 4"
    using ln_mult [of 25 4] by simp
  then have slope: "ols_slope ?ds = - 2"
    by (simp add: two_point_slope survives_obs lnP_obs lnQ_obs ln_20 ln_4)
  have var: "log_price_variance ?ds \<noteq> 0"
    by (simp add: variance_zero_iff [OF two] two_point_denominator survives_obs lnP_obs)
  show ?thesis
    using calculateElasticity_slope [OF two var, of example_getTime] two var slope by simp
qed

text \<open>
  C3. For every result, \<open>current_price\<close> and the current quantity are those of the last
  observation of the unfiltered series sorted by date, an observation of the input whose
  date no other exceeds; \<open>recommended_price\<close> is \<open>current_price * 0.90\<close> when
  \<open>is_elastic\<close> and \<open>current_price * 1.10\<close> otherwise; and \<open>expected_revenue_change\<close> is
  the revenue change of the constant-elasticity demand curve. In particular an
  elasticity of \<open>-2\<close> at price 100 and quantity 50 gives the recommended price 90 and
  the expected revenue change \<open>100 / 9\<close> percent.
\<close>

theorem calculateElasticity_recommendation:
  assumes "fst (calculateElasticity getTime ds) = Some r"
  shows "last (sorted_by_date getTime ds) \<in> set ds \<and>
     (\<forall>d\<in>set ds. getTime (sale_date d) \<le> getTime (sale_date (last (sorted_by_date getTime ds)))) \<and>
     current_price r = price (last (sorted_by_date getTime ds)) \<and>
     recommended_price r = jmul (current_price r) (Num (if is_elastic r then 0.90 else 1.10)) \<and>
     expected_revenue_change r =
       spec_revenue_change (current_price r) (quantity_sold (last (sorted_by_date getTime ds)))
         (recommended_price r) (elasticity r) \<and>
     (elasticity r = Num (- 2) \<and> current_price r = Num 100 \<and>
      quantity_sold (last (sorted_by_date getTime ds)) = Num 50 \<longrightarrow>
        is_elastic r \<and> recommended_price r = Num 90 \<and> expected_revenue_change r = Num (100 / 9))"
proof -
  note D = calculateElasticity_SomeD [OF assms]
  have r: "r = \<lparr>elasticity = Num (ols_slope ds),
           r_squared = Num (ols_r_squared ds),
           is_elastic = (1 < \<bar>ols_slope ds\<bar>),
           res_product_name = product_name (hd (sorted_by_date getTime ds)),
           res_category = category (hd (sorted_by_date getTime ds)),
           current_price = price (last (sorted_by_date getTime ds)),
           recommended_price =
             jmul (price (last (sorted_by_date getTime ds)))
               (Num (if 1 < \<bar>ols_slope ds\<bar> then 0.9 else 1.1)),
           expected_revenue_change =
             spec_revenue_change (price (last (sorted_by_date getTime ds)))
               (quantity_sold (last (sorted_by_date getTime ds)))
               (jmul (price (last (sorted_by_date getTime ds)))
                 (Num (if 1 < \<bar>ols_slope ds\<bar> then 0.9 else 1.1)))
               (Num (ols_slope ds))\<rparr>"
    using assms calculateElasticity_Some [OF D(2,3), of getTime] by simp
  have ne: "ds \<noteq> []"
    using D(1) by auto
  have ex: "spec_revenue_change (Num 100) (Num 50) (jmul (Num 100) (Num (9 / 10))) (Num (- 2)) = Num (100 / 9)"
    using spec_revenue_change_real [of 100 50 "9 / 10" "- 2"] by (simp add: powr_neg_numeral power2_eq_square)
  show ?thesis
    using last_sorted_by_date [OF ne, of getTime] ex by (auto simp: r)
qed

theorem calculateElasticity_recommendation_witness:
  "\<exists>r. fst (calculateElasticity example_getTime
          [obs 50 200 ''Tools'' ''2024-01-01'', obs 100 50 ''Tools'' ''2024-01-02'']) = Some r \<and>
       elasticity r = Num (- 2) \<and> current_price r = Num 100 \<and> is_elastic r \<and>
       recommended_price r = Num 90 \<and> expected_revenue_change r = Num (100 / 9)"
proof -
  let ?ds = "[obs 50 200 ''Tools'' ''2024-01-01'', obs 100 50 ''Tools'' ''2024-01-02'']"
  have two: "2 \<le> length (filter survives ?ds)"
    by (simp add: survives_obs)
  have den: "ols_denominator ?ds \<noteq> 0"
    by (simp add: two_point_denominator survives_obs lnP_obs)
  have slope: "ols_slope ?ds = - 2"
    by (simp add: two_point_slope survives_obs lnP_obs lnQ_obs ln_100 ln_200)
  obtain r where r: "fst (calculateElasticity example_getTime ?ds) = Some r"
    and e: "elasticity r = Num (- 2)"
    and cp: "current_price r = Num 100"
    using calculateElasticity_Some [OF two den, of example_getTime]
    by (simp add: slope)
  have "quantity_sold (last (sorted_by_date example_getTime ?ds)) = Num 50"
    by simp
  with calculateElasticity_recommendation [OF r] e cp r show ?thesis
    by auto
qed

text \<open>
  C4. For every input, \<open>optimizePrice\<close> returns \<open>currentPrice\<close> times the offset of the
  table: 0.85 (revenue, elastic), 1.15 (revenue, inelastic), 0.90 (profit, elastic),
  1.20 (profit, inelastic), elastic meaning \<open>|elasticity| > 1\<close>; under the revenue
  target the expected change is the revenue change of the constant-elasticity demand
  curve; and at elasticity \<open>-0.5\<close>, price 20, quantity 100 and the revenue target the
  optimal price is 23 and the expected change is \<open>(1.15 powr 0.5 - 1) * 100\<close> percent,
  which lies between 7.23 and 7.24.
\<close>

theorem optimizePrice_offsets:
  "optimal_price (optimizePrice e p q c t) = jmul p (Num (price_offset t (jgt (jabs e) (Num 1)))) \<and>
   expected_change (optimizePrice e p q c Revenue) =
     spec_revenue_change p q (optimal_price (optimizePrice e p q c Revenue)) e \<and>
   optimal_price (optimizePrice (Num (- 0.5)) (Num 20) (Num 100) c Revenue) = Num 23 \<and>
   expected_change (optimizePrice (Num (- 0.5)) (Num 20) (Num 100) c Revenue) =
     Num ((1.15 powr 0.5 - 1) * 100) \<and>
   7.23 < (1.15 powr 0.5 - 1) * (100::real) \<and> (1.15 powr 0.5 - 1) * (100::real) < 7.24"
proof -
  have off: "optimal_price (optimizePrice e p q c t) =
      jmul p (Num (price_offset t (jgt (jabs e) (Num 1))))" for e p q c t
    by (cases t) (simp_all add: optimizePrice_def Let_def)
  have rev: "expected_change (optimizePrice e p q c Revenue) =
      spec_revenue_change p q (optimal_price (optimizePrice e p q c Revenue)) e" for e p q c
    by (simp add: optimizePrice_def Let_def spec_revenue_change_def)
  have ex: "expected_change (optimizePrice (Num (- 0.5)) (Num 20) (Num 100) c Revenue) =
      Num ((1.15 powr 0.5 - 1) * 100)"
    using example_revenue_change by (simp add: optimizePrice_def Let_def jsub_Num)
  have opt: "optimal_price (optimizePrice (Num (- 0.5)) (Num 20) (Num 100) c Revenue) = Num 23"
    by (simp add: off)
  show ?thesis
    by (intro conjI off rev ex opt powr_half_115)
qed

text \<open>
  C4, the value as first stated ("about 9.86%"): the expected change of that call is
  more than one percentage point away from 9.86.
\<close>

theorem optimizePrice_example_counterexample:
  "expected_change (optimizePrice (Num (- 0.5)) (Num 20) (Num 100) (Num 0) Revenue) =
     Num ((1.15 powr 0.5 - 1) * 100) \<and>
   \<not> \<bar>(1.15 powr 0.5 - 1) * 100 - 9.86\<bar> \<le> (1::real)"
proof -
  have "expected_change (optimizePrice (Num (- 0.5)) (Num 20) (Num 100) (Num 0) Revenue) =
      Num ((1.15 powr 0.5 - 1) * 100)"
    using example_revenue_change by (simp add: optimizePrice_def Let_def jsub_Num)
  moreover have "(1.15 powr 0.5 - 1) * (100::real) < 7.24"
    by (rule powr_half_115)
  ultimately show ?thesis
    by simp
qed

text \<open>
  C5. For every result, \<open>is_elastic\<close> holds exactly when \<open>|elasticity| > 1\<close>, the
  comparison being strict: an elasticity of exactly \<open>1\<close> or \<open>-1\<close> is inelastic.
\<close>

theorem calculateElasticity_classification:
  assumes "fst (calculateElasticity getTime ds) = Some r"
  shows "is_elastic r = jgt (jabs (elasticity r)) (Num 1) \<and>
     (\<exists>e. elasticity r = Num e \<and> is_elastic r = (1 < \<bar>e\<bar>)) \<and>
     (elasticity r = Num 1 \<or> elasticity r = Num (- 1) \<longrightarrow> \<not> is_elastic r)"
proof -
  note D = calculateElasticity_SomeD [OF assms]
  show ?thesis
    using assms calculateElasticity_Some [OF D(2,3), of getTime] by auto
qed

theorem calculateElasticity_classification_witness:
  "(\<exists>r. fst (calculateElasticity example_getTime
          [obs 1 2 ''Tools'' ''2024-01-01'', obs 2 1 ''Tools'' ''2024-01-02'']) = Some r \<and>
        elasticity r = Num (- 1) \<and> \<not> is_elastic r \<and> recommended_price r = Num 2.2) \<and>
   (\<exists>r. fst (calculateElasticity example_getTime
          [obs 1 1 ''Tools'' ''2024-01-01'', obs 2 2 ''Tools'' ''2024-01-02'']) = Some r \<and>
        elasticity r = Num 1 \<and> \<not> is_elastic r \<and> recommended_price r = Num 2.2)"
proof -
  let ?down = "[obs 1 2 ''Tools'' ''2024-01-01'', obs 2 1 ''Tools'' ''2024-01-02'']"
  let ?up = "[obs 1 1 ''Tools'' ''2024-01-01'', obs 2 2 ''Tools'' ''2024-01-02'']"
  have two: "2 \<le> length (filter survives ?down)" "2 \<le> length (filter survives ?up)"
    by (simp_all add: survives_obs)
  have den: "ols_denominator ?down \<noteq> 0" "ols_denominator ?up \<noteq> 0"
    by (simp_all add: two_point_denominator survives_obs lnP_obs)
  have slope: "ols_slope ?down = - 1" "ols_slope ?up = 1"
    by (simp_all add: two_point_slope survives_obs lnP_obs lnQ_obs)
  obtain r where r: "fst (calculateElasticity example_getTime ?down) = Some r"
    and e: "elasticity r = Num (- 1)" and rp: "recommended_price r = Num 2.2"
    using calculateElasticity_Some [OF two(1) den(1), of example_getTime]
    by (simp add: slope)
  obtain r' where r': "fst (calculateElasticity example_getTime ?up) = Some r'"
    and e': "elasticity r' = Num 1" and rp': "recommended_price r' = Num 2.2"
    using calculateElasticity_Some [OF two(2) den(2), of example_getTime]
    by (simp add: slope)
  from calculateElasticity_classification [OF r] e have "\<not> is_elastic r"
    by simp
  moreover from calculateElasticity_classification [OF r'] e' have "\<not> is_elastic r'"
    by simp
  ultimately show ?thesis
    using r e rp r' e' rp' by blast
qed

text \<open>
  C6. Under the profit target, a baseline profit \<open>(currentPrice - costPerUnit) *
  currentQuantity\<close> that is not positive gives the expected change 0, whatever the
  predicted profit; a positive baseline gives
  \<open>((predicted_profit - current_profit) / current_profit) * 100\<close>.
\<close>

theorem optimizePrice_profit_change:
  "(\<not> jgt (current_profit p c q) (Num 0) \<longrightarrow>
      expected_change (optimizePrice e p q c Profit) = Num 0) \<and>
   (jgt (current_profit p c q) (Num 0) \<longrightarrow>
      expected_change (optimizePrice e p q c Profit) =
        jmul (jdiv (jsub (predicted_profit e p q c) (current_profit p c q)) (current_profit p c q))
          (Num 100)) \<and>
   (p = Num p' \<and> c = Num c' \<and> q = Num q' \<and> (p' - c') * q' \<le> 0 \<longrightarrow>
      expected_change (optimizePrice e p q c Profit) = Num 0)"
proof -
  have change: "expected_change (optimizePrice e p q c Profit) =
      (if jgt (current_profit p c q) (Num 0)
       then jmul (jdiv (jsub (predicted_profit e p q c) (current_profit p c q))
                   (current_profit p c q)) (Num 100)
       else Num 0)"
    by (simp add: optimizePrice_def Let_def current_profit_def predicted_profit_def
        del: jpow.simps jdiv.simps jmul.simps)
  have "current_profit (Num p') (Num c') (Num q') = Num ((p' - c') * q')"
    by (simp add: current_profit_def jsub_Num)
  then have "(p' - c') * q' \<le> 0 \<Longrightarrow> \<not> jgt (current_profit (Num p') (Num c') (Num q')) (Num 0)"
    by simp
  then show ?thesis
    by (auto simp only: change split: if_splits)
qed

theorem optimizePrice_profit_change_witness:
  "\<not> jgt (current_profit (Num 10) (Num 12) (Num 100)) (Num 0) \<and>
   expected_change (optimizePrice (Num (- 2)) (Num 10) (Num 100) (Num 12) Profit) = Num 0 \<and>
   jgt (current_profit (Num 10) (Num 4) (Num 100)) (Num 0) \<and>
   expected_change (optimizePrice (Num (- 2)) (Num 10) (Num 100) (Num 4) Profit) = Num (700 / 243)"
proof -
  have neg: "\<not> jgt (current_profit (Num 10) (Num 12) (Num 100)) (Num 0)"
    by (simp add: current_profit_def jsub_Num)
  have pos: "jgt (current_profit (Num 10) (Num 4) (Num 100)) (Num 0)"
    by (simp add: current_profit_def jsub_Num)
  have pp: "predicted_profit (Num (- 2)) (Num 10) (Num 100) (Num 4) = Num (50000 / 81)"
    by (simp add: predicted_profit_def jsub_Num powr_neg_numeral power2_eq_square)
  have cp: "current_profit (Num 10) (Num 4) (Num 100) = Num 600"
    by (simp add: current_profit_def jsub_Num)
  show ?thesis
    using optimizePrice_profit_change [where p = "Num 10" and c = "Num 12" and q = "Num 100"
        and e = "Num (- 2)"]
      optimizePrice_profit_change [where p = "Num 10" and c = "Num 4" and q = "Num 100"
        and e = "Num (- 2)"] neg pos
    by (simp add: pp cp jsub_Num)
qed

text \<open>
  C7. The revenue change is not guarded against a zero baseline revenue: when the series
  has at least two observations with finite logarithms and nonzero log-price variance,
  and the price times the quantity of its latest observation is zero, the function still
  returns a result, whose \<open>expected_revenue_change\<close> is \<open>NaN\<close>, the quotient by the
  zero baseline.
\<close>

theorem calculateElasticity_zero_baseline:
  assumes "2 \<le> length (filter survives ds)" and "log_price_variance ds \<noteq> 0"
    and "jmul (price (last (sorted_by_date getTime ds)))
           (quantity_sold (last (sorted_by_date getTime ds))) = Num 0"
  shows "\<exists>r. fst (calculateElasticity getTime ds) = Some r \<and>
     expected_revenue_change r = NaN \<and> \<not> isFinite (expected_revenue_change r)"
proof -
  have den: "ols_denominator ds \<noteq> 0"
    using assms(1,2) by (simp add: variance_zero_iff)
  show ?thesis
    using calculateElasticity_Some [OF assms(1) den, of getTime] zero_baseline_NaN [OF assms(3)]
    by simp
qed

theorem calculateElasticity_zero_baseline_witness:
  "\<exists>r. fst (calculateElasticity example_getTime
          [obs 10 100 ''Tools'' ''2024-01-01'', obs 20 25 ''Tools'' ''2024-01-02'',
           obs 30 0 ''Tools'' ''2024-01-03'']) = Some r \<and>
       current_price r = Num 30 \<and>
       expected_revenue_change r = NaN \<and> \<not> isFinite (expected_revenue_change r)"
proof -
  let ?ds = "[obs 10 100 ''Tools'' ''2024-01-01'', obs 20 25 ''Tools'' ''2024-01-02'',
              obs 30 0 ''Tools'' ''2024-01-03'']"
  have fs: "filter survives ?ds = [obs 10 100 ''Tools'' ''2024-01-01'', obs 20 25 ''Tools'' ''2024-01-02'']"
    by (simp add: survives_obs)
  have two: "2 \<le> length (filter survives ?ds)"
    unfolding fs by simp
  have "ols_denominator ?ds \<noteq> 0"
    unfolding ols_denominator_filter [of ?ds] fs
    by (simp add: two_point_denominator survives_obs lnP_obs)
  then have var: "log_price_variance ?ds \<noteq> 0"
    by (simp add: variance_zero_iff [OF two])
  have zero: "jmul (price (last (sorted_by_date example_getTime ?ds)))
      (quantity_sold (last (sorted_by_date example_getTime ?ds))) = Num 0"
    by simp
  obtain r where r: "fst (calculateElasticity example_getTime ?ds) = Some r"
    and nan: "expected_revenue_change r = NaN" "\<not> isFinite (expected_revenue_change r)"
    using calculateElasticity_zero_baseline [OF two var zero] by blast
  have "current_price r = price (last (sorted_by_date example_getTime ?ds))"
    using r by (auto simp: calculateElasticity_eq split: if_splits)
  then show ?thesis
    using r nan by simp
qed

text \<open>
  C8. The labels of a result are read in the array after the sort: on a series given
  latest observation first, \<open>category\<close> is that of the earliest observation, not that
  of the first observation the caller supplied.
\<close>

theorem calculateElasticity_labels_of_earliest:
  "map_option res_category (fst (calculateElasticity example_getTime
      [obs 20 50 ''Garden'' ''2024-01-02'', obs 10 100 ''Tools'' ''2024-01-01''])) = Some ''Tools'' \<and>
   category (hd [obs 20 50 ''Garden'' ''2024-01-02'', obs 10 100 ''Tools'' ''2024-01-01'']) = ''Garden''"
proof -
  let ?ds = "[obs 20 50 ''Garden'' ''2024-01-02'', obs 10 100 ''Tools'' ''2024-01-01'']"
  have two: "2 \<le> length (filter survives ?ds)"
    by (simp add: survives_obs)
  have den: "ols_denominator ?ds \<noteq> 0"
    by (simp add: two_point_denominator survives_obs lnP_obs)
  show ?thesis
    using calculateElasticity_Some [OF two den, of example_getTime] by simp
qed

text \<open>
  C9. The call sorts the caller's array: a series given latest observation first is
  left in ascending order of date.
\<close>

theorem calculateElasticity_reorders_input:
  "snd (calculateElasticity example_getTime
      [obs 20 50 ''Garden'' ''2024-01-02'', obs 10 100 ''Tools'' ''2024-01-01'']) =
     [obs 10 100 ''Tools'' ''2024-01-01'', obs 20 50 ''Garden'' ''2024-01-02''] \<and>
   [obs 10 100 ''Tools'' ''2024-01-01'', obs 20 50 ''Garden'' ''2024-01-02''] \<noteq>
     [obs 20 50 ''Garden'' ''2024-01-02'', obs 10 100 ''Tools'' ''2024-01-01'']"
  by (simp add: snd_calculateElasticity)

text \<open>
  C10. On exact real arithmetic, \<open>r_squared\<close> of every result lies between 0 and 1.
\<close>

theorem calculateElasticity_r_squared_bounds:
  assumes "fst (calculateElasticity getTime ds) = Some r"
  shows "\<exists>x. r_squared r = Num x \<and> 0 \<le> x \<and> x \<le> 1"
proof -
  note D = calculateElasticity_SomeD [OF assms]
  show ?thesis
    using assms calculateElasticity_Some [OF D(2,3), of getTime] ols_r_squared_bounds [of ds]
    by auto
qed

theorem calculateElasticity_r_squared_bounds_witness:
  "\<exists>r x. fst (calculateElasticity example_getTime
          [obs 10 100 ''Tools'' ''2024-01-01'', obs 20 25 ''Tools'' ''2024-01-02'',
           obs 40 10 ''Tools'' ''2024-01-03'']) = Some r \<and>
       r_squared r = Num x \<and> 0 \<le> x \<and> x \<le> 1"
proof -
  let ?ds = "[obs 10 100 ''Tools'' ''2024-01-01'', obs 20 25 ''Tools'' ''2024-01-02'',
              obs 40 10 ''Tools'' ''2024-01-03'']"
  have two: "2 \<le> length (filter survives ?ds)"
    by (simp add: survives_obs)
  have den: "ols_denominator ?ds \<noteq> 0"
    by (rule ols_denominator_nonzero [of "obs 10 100 ''Tools'' ''2024-01-01''" _
          "obs 20 25 ''Tools'' ''2024-01-02''"])
      (simp_all add: survives_obs lnP_obs)
  obtain r where r: "fst (calculateElasticity example_getTime ?ds) = Some r"
    using calculateElasticity_Some [OF two den, of example_getTime] by simp
  with calculateElasticity_r_squared_bounds [OF r] show ?thesis
    by blast
qed

end
